theory Spec2Isabelle
  imports Main "HOL-Library.Word" "HOL-Library.Signed_Division"
begin

unbundle bit_operations_syntax

section \<open>Data model of the light service\<close>

text \<open>
  The embedding follows \<^verbatim>\<open>light/Lights.cpp\<close>. The C++ types \<^verbatim>\<open>int\<close>, \<^verbatim>\<open>int32_t\<close>
  and \<^verbatim>\<open>uint32_t\<close> are 32-bit words; \<open>sint\<close> reads a word as a signed and \<open>unat\<close>
  or \<open>uint\<close> as an unsigned number. Arithmetic on words wraps around. A call of
  \<^verbatim>\<open>setLightState\<close> holds \<^verbatim>\<open>globalLock\<close> from before its first loop to its return, so
  calls run one after the other; the model is sequential.
\<close>

type_synonym int32_t = "32 word"
type_synonym uint32_t = "32 word"

text \<open>
  Modelled from the spec: the flash mode of a light state (\<^verbatim>\<open>FlashMode\<close>, declared by the
  light interface outside the source file), which the specification gives as none or
  timed. The code only tells \<^verbatim>\<open>FlashMode::TIMED\<close> from every other mode.
\<close>

datatype FlashMode = NONE | TIMED

text \<open>
  Modelled from the spec: the light state \<^verbatim>\<open>HwLightState\<close> (declared by the light
  interface outside the source file): a 32-bit packed colour, the flash mode, the on and
  off durations in milliseconds, and a brightness mode that the code never reads and
  that is kept as a number. The colour and the durations are C++ \<^verbatim>\<open>int\<close>s.
\<close>

record HwLightState =
  color :: int32_t
  flashMode :: FlashMode
  flashOnMs :: int32_t
  flashOffMs :: int32_t
  brightnessMode :: int

text \<open>
  Modelled from the spec: the light class \<^verbatim>\<open>LightType\<close> (an enum declared by the light
  interface outside the source file). The five classes of the table are named;
  \<open>OTHER v\<close> stands for every other value that \<^verbatim>\<open>static_cast<LightType>(id)\<close> can give.
\<close>

datatype LightType = ATTENTION | NOTIFICATIONS | BATTERY | BACKLIGHT | BUTTONS | OTHER int

text \<open>
  A \<^verbatim>\<open>LightStateHandler\<close> is a pointer to one of the three static handler functions; the
  arbiter compares handlers by identity. The model names the three functions and calls
  them through \<open>call_handler\<close> below.
\<close>

datatype LightStateHandler = HandleNotification | HandleBacklight | HandleButtons

text \<open>
  Modelled from the spec: an entry of the table (\<^verbatim>\<open>LightBackend\<close>, declared in
  \<^verbatim>\<open>Lights.h\<close>, which is not among the sources): the class, the handler and the state last
  requested for the class.
\<close>

record LightBackend =
  type :: LightType
  handler :: LightStateHandler
  state :: HwLightState

text \<open>
  Modelled from the spec: an entry of the listing (\<^verbatim>\<open>HwLight\<close>, declared by the light
  interface outside the source file) with its fields \<^verbatim>\<open>id\<close>, \<^verbatim>\<open>type\<close> and \<^verbatim>\<open>ordinal\<close>.
\<close>

record HwLight =
  hw_id :: int
  hw_type :: LightType
  ordinal :: int

text \<open>
  The status of a binder call: \<^verbatim>\<open>ScopedAStatus::ok()\<close> or
  \<^verbatim>\<open>fromExceptionCode(EX_UNSUPPORTED_OPERATION)\<close>.
\<close>

datatype ScopedAStatus = ok | EX_UNSUPPORTED_OPERATION

section \<open>Attribute writes\<close>

text \<open>
  \<^verbatim>\<open>set(path, value)\<close> opens the file and writes the string; when the file cannot be opened
  it logs and returns. The model records each call of \<^verbatim>\<open>set\<close> as a pair of path and
  value, in the order of the calls; whether the file system takes the value is outside
  the program.
\<close>

type_synonym attr_write = "string \<times> string"

definition LEDS :: string where "LEDS = ''/sys/class/leds/''"
definition BUTTON1_LED :: string where "BUTTON1_LED = LEDS @ ''button-backlight1/''"
definition BUTTON_LED :: string where "BUTTON_LED = LEDS @ ''button-backlight/''"
definition LCD_LED :: string where "LCD_LED = LEDS @ ''lcd-backlight/''"
definition WHITE_LED :: string where "WHITE_LED = LEDS @ ''white/''"

definition BLINK :: string where "BLINK = ''blink''"
definition BRIGHTNESS :: string where "BRIGHTNESS = ''brightness''"
definition DUTY_PCTS :: string where "DUTY_PCTS = ''duty_pcts''"
definition PAUSE_HI :: string where "PAUSE_HI = ''pause_hi''"
definition PAUSE_LO :: string where "PAUSE_LO = ''pause_lo''"
definition RAMP_STEP_MS :: string where "RAMP_STEP_MS = ''ramp_step_ms''"
definition START_IDX :: string where "START_IDX = ''start_idx''"

definition MAX_LED_BRIGHTNESS :: uint32_t where "MAX_LED_BRIGHTNESS = 255"
definition MAX_LCD_BRIGHTNESS :: uint32_t where "MAX_LCD_BRIGHTNESS = 4095"

definition RAMP_STEPS :: int32_t where "RAMP_STEPS = 8"
definition RAMP_STEP_DURATION :: int32_t where "RAMP_STEP_DURATION = 50"
definition BRIGHTNESS_RAMP :: "int32_t list" where
  "BRIGHTNESS_RAMP = [0, 12, 25, 37, 50, 72, 85, 100]"

text \<open>
  \<^verbatim>\<open>std::to_string\<close> of an integer: the decimal digits, most significant first, after a
  minus sign when the number is negative.
\<close>

definition digit_char :: "nat \<Rightarrow> char" where
  "digit_char d = ''0123456789'' ! (d mod 10)"

function string_of_nat :: "nat \<Rightarrow> string" where
  "string_of_nat n =
     (if n < 10 then [digit_char n] else string_of_nat (n div 10) @ [digit_char (n mod 10)])"
  by pat_completeness auto
termination
  by (relation "measure id") auto

definition to_string :: "int \<Rightarrow> string" where
  "to_string i = (if i < 0 then CHR ''-'' # string_of_nat (nat (- i)) else string_of_nat (nat i))"

text \<open>
  The overload \<^verbatim>\<open>set(std::string, int)\<close>: an argument of type \<^verbatim>\<open>uint32_t\<close> is converted to
  \<^verbatim>\<open>int\<close> first, which keeps the bits.
\<close>

definition set_str :: "string \<Rightarrow> string \<Rightarrow> attr_write list" where
  "set_str path v = [(path, v)]"

definition set_int :: "string \<Rightarrow> int32_t \<Rightarrow> attr_write list" where
  "set_int path v = set_str path (to_string (sint v))"

section \<open>Colour to brightness\<close>

text \<open>
  \<^verbatim>\<open>state.color\<close> is a signed \<^verbatim>\<open>int\<close>, so \<^verbatim>\<open>>>\<close> is the arithmetic shift; the mask keeps
  the low eight bits of the shifted value, which are then held in \<^verbatim>\<open>uint32_t\<close>
  variables. Division of unsigned words truncates.
\<close>

definition getBrightness :: "HwLightState \<Rightarrow> uint32_t" where
  "getBrightness st =
     (let alpha = signed_drop_bit 24 (color st) AND 0xFF;
          red = signed_drop_bit 16 (color st) AND 0xFF;
          green = signed_drop_bit 8 (color st) AND 0xFF;
          blue = color st AND 0xFF;
          red' = (if alpha \<noteq> 0xFF then red * alpha div 0xFF else red);
          green' = (if alpha \<noteq> 0xFF then green * alpha div 0xFF else green);
          blue' = (if alpha \<noteq> 0xFF then blue * alpha div 0xFF else blue)
      in drop_bit 8 (77 * red' + 150 * green' + 29 * blue'))"

definition scaleBrightness :: "uint32_t \<Rightarrow> uint32_t \<Rightarrow> uint32_t" where
  "scaleBrightness brightness maxBrightness = brightness * maxBrightness div 0xFF"

definition getScaledBrightness :: "HwLightState \<Rightarrow> uint32_t \<Rightarrow> uint32_t" where
  "getScaledBrightness st maxBrightness = scaleBrightness (getBrightness st) maxBrightness"

section \<open>Handlers\<close>

definition handleBacklight :: "HwLightState \<Rightarrow> attr_write list" where
  "handleBacklight st =
     (let brightness = getScaledBrightness st MAX_LCD_BRIGHTNESS
      in set_int (LCD_LED @ BRIGHTNESS) brightness)"

definition handleButtons :: "HwLightState \<Rightarrow> attr_write list" where
  "handleButtons st =
     (let brightness = getScaledBrightness st MAX_LED_BRIGHTNESS
      in set_int (BUTTON_LED @ BRIGHTNESS) brightness
         @ set_int (BUTTON1_LED @ BRIGHTNESS) brightness)"

text \<open>
  The loop of \<^verbatim>\<open>getScaledRamp\<close> over the ramp table, with its two variables \<^verbatim>\<open>ramp\<close> and
  \<^verbatim>\<open>pad\<close>. The product \<^verbatim>\<open>step * brightness\<close> is unsigned (the \<^verbatim>\<open>int32_t\<close> step is
  converted), and \<^verbatim>\<open>std::to_string\<close> prints the unsigned quotient.
\<close>

fun getScaledRamp_loop :: "int32_t list \<Rightarrow> uint32_t \<Rightarrow> string \<Rightarrow> string \<Rightarrow> string" where
  "getScaledRamp_loop [] brightness ramp pad = ramp"
| "getScaledRamp_loop (step # steps) brightness ramp pad =
     getScaledRamp_loop steps brightness
       (ramp @ pad @ to_string (uint (step * brightness div 0xFF))) '',''"

definition getScaledRamp :: "uint32_t \<Rightarrow> string" where
  "getScaledRamp brightness = getScaledRamp_loop BRIGHTNESS_RAMP brightness [] []"

text \<open>
  Signed division of C++ truncates towards zero, as \<open>sdiv\<close> on \<open>int\<close> does. The
  subtraction \<^verbatim>\<open>state.flashOnMs - 800\<close> is a signed subtraction, which the model lets wrap
  around where C++ leaves the overflow undefined.
\<close>

definition sdiv32 :: "int32_t \<Rightarrow> int32_t \<Rightarrow> int32_t" where
  "sdiv32 a b = word_of_int (sint a sdiv sint b)"

text \<open>
  The local variables of the \<^verbatim>\<open>TIMED\<close> branch of \<^verbatim>\<open>handleNotification\<close> (lines 133 to
  140): \<^verbatim>\<open>stepDuration\<close>, \<^verbatim>\<open>pauseHi\<close> and \<^verbatim>\<open>pauseLo\<close> as they stand when the writes
  begin.
\<close>

definition blink_timing :: "HwLightState \<Rightarrow> int32_t \<times> int32_t \<times> int32_t" where
  "blink_timing st =
     (let stepDuration = RAMP_STEP_DURATION;
          pauseHi = flashOnMs st - (stepDuration * RAMP_STEPS * 2);
          pauseLo = flashOffMs st
      in if sint pauseHi < 0 then (sdiv32 (flashOnMs st) (RAMP_STEPS * 2), 0, pauseLo)
         else (stepDuration, pauseHi, pauseLo))"

definition handleNotification :: "HwLightState \<Rightarrow> attr_write list" where
  "handleNotification st =
     (let whiteBrightness = getScaledBrightness st MAX_LED_BRIGHTNESS
      in set_int (WHITE_LED @ BLINK) 0
         @ (if flashMode st = TIMED then
              (let (stepDuration, pauseHi, pauseLo) = blink_timing st
               in set_int (WHITE_LED @ START_IDX) (0 * RAMP_STEPS)
                  @ set_str (WHITE_LED @ DUTY_PCTS) (getScaledRamp whiteBrightness)
                  @ set_int (WHITE_LED @ PAUSE_LO) pauseLo
                  @ set_int (WHITE_LED @ PAUSE_HI) pauseHi
                  @ set_int (WHITE_LED @ RAMP_STEP_MS) stepDuration
                  @ set_int (WHITE_LED @ BLINK) 1)
            else set_int (WHITE_LED @ BRIGHTNESS) whiteBrightness))"

definition isLit :: "HwLightState \<Rightarrow> bool" where
  "isLit st \<longleftrightarrow> color st AND 0x00ffffff \<noteq> 0"

fun call_handler :: "LightStateHandler \<Rightarrow> HwLightState \<Rightarrow> attr_write list" where
  "call_handler HandleNotification st = handleNotification st"
| "call_handler HandleBacklight st = handleBacklight st"
| "call_handler HandleButtons st = handleButtons st"

section \<open>The arbiter\<close>

text \<open>
  The table \<^verbatim>\<open>backends\<close>, in the order of importance. The state an entry starts with is
  set by the constructor of \<^verbatim>\<open>LightBackend\<close> in \<^verbatim>\<open>Lights.h\<close>, which is not part of the
  source file; it is the parameter \<open>init\<close>.
\<close>

definition backends :: "HwLightState \<Rightarrow> LightBackend list" where
  "backends init =
     [\<lparr>type = ATTENTION, handler = HandleNotification, state = init\<rparr>,
      \<lparr>type = NOTIFICATIONS, handler = HandleNotification, state = init\<rparr>,
      \<lparr>type = BATTERY, handler = HandleNotification, state = init\<rparr>,
      \<lparr>type = BACKLIGHT, handler = HandleBacklight, state = init\<rparr>,
      \<lparr>type = BUTTONS, handler = HandleButtons, state = init\<rparr>]"

text \<open>
  First loop of \<^verbatim>\<open>setLightState\<close>: every entry of the requested type takes the new state,
  and \<^verbatim>\<open>handler\<close> (a null pointer at first, \<open>None\<close> here) becomes that entry's handler.
\<close>

fun update_loop ::
  "LightType \<Rightarrow> HwLightState \<Rightarrow> LightBackend list \<Rightarrow> LightStateHandler option
    \<Rightarrow> LightBackend list \<times> LightStateHandler option" where
  "update_loop ty st [] h = ([], h)"
| "update_loop ty st (backend # rest) h =
     (if type backend = ty then
        (let (rest', h') = update_loop ty st rest (Some (handler backend))
         in (backend\<lparr>state := st\<rparr> # rest', h'))
      else
        (let (rest', h') = update_loop ty st rest h
         in (backend # rest', h')))"

text \<open>
  Second loop: the first entry with the same handler and a lit state is handed to the
  handler, and the loop stops. The result is the state handed over, if any
  (\<^verbatim>\<open>handled\<close> is true exactly when there is one).
\<close>

fun select_loop :: "LightStateHandler \<Rightarrow> LightBackend list \<Rightarrow> HwLightState option" where
  "select_loop h [] = None"
| "select_loop h (backend # rest) =
     (if h = handler backend \<and> isLit (state backend) then Some (state backend)
      else select_loop h rest)"

text \<open>
  \<^verbatim>\<open>Lights::setLightState\<close>. The argument \<open>ty\<close> is the value of
  \<^verbatim>\<open>static_cast<LightType>(id)\<close>. The result is the status, the handler calls made (handler
  and argument, in order) and the table after the call.
\<close>

type_synonym handler_call = "LightStateHandler \<times> HwLightState"

definition setLightState ::
  "LightType \<Rightarrow> HwLightState \<Rightarrow> LightBackend list
    \<Rightarrow> ScopedAStatus \<times> handler_call list \<times> LightBackend list" where
  "setLightState ty st bs =
     (let (bs', h) = update_loop ty st bs None
      in case h of
           None \<Rightarrow> (EX_UNSUPPORTED_OPERATION, [], bs')
         | Some hnd \<Rightarrow>
             (case select_loop hnd bs' of
                Some lit \<Rightarrow> (ok, [(hnd, lit)], bs')
              | None \<Rightarrow> (ok, [(hnd, st)], bs')))"

text \<open>The attribute writes of a sequence of handler calls.\<close>

definition writes_of :: "handler_call list \<Rightarrow> attr_write list" where
  "writes_of calls = concat (map (\<lambda>(h, s). call_handler h s) calls)"

text \<open>
  \<^verbatim>\<open>Lights::getLights\<close> appends one \<^verbatim>\<open>HwLight\<close> per table entry to the vector it is given,
  counting from 0. The number \<^verbatim>\<open>(int) backend.type\<close> of a class is fixed by the enum's
  declaration, outside the source file: it is the parameter \<open>num\<close>.
\<close>

fun getLights_loop ::
  "(LightType \<Rightarrow> int) \<Rightarrow> LightBackend list \<Rightarrow> int \<Rightarrow> HwLight list \<Rightarrow> HwLight list" where
  "getLights_loop num [] i lights = lights"
| "getLights_loop num (backend # rest) i lights =
     getLights_loop num rest (i + 1)
       (lights @ [\<lparr>hw_id = num (type backend), hw_type = type backend, ordinal = i\<rparr>])"

definition getLights ::
  "(LightType \<Rightarrow> int) \<Rightarrow> LightBackend list \<Rightarrow> HwLight list
    \<Rightarrow> ScopedAStatus \<times> HwLight list" where
  "getLights num bs lights = (ok, getLights_loop num bs 0 lights)"

text \<open>A history of \<^verbatim>\<open>setLightState\<close> calls, applied to a table from left to right.\<close>

fun run_calls :: "(LightType \<times> HwLightState) list \<Rightarrow> LightBackend list \<Rightarrow> LightBackend list" where
  "run_calls [] bs = bs"
| "run_calls ((ty, st) # cs) bs = run_calls cs (snd (snd (setLightState ty st bs)))"

text \<open>
  The table as the invariant sees it: the five classes and their handlers, in the order
  of the source; the stored states are free.
\<close>

definition is_backends :: "LightBackend list \<Rightarrow> bool" where
  "is_backends bs \<longleftrightarrow>
     map type bs = [ATTENTION, NOTIFICATIONS, BATTERY, BACKLIGHT, BUTTONS] \<and>
     map handler bs =
       [HandleNotification, HandleNotification, HandleNotification, HandleBacklight,
        HandleButtons]"

text \<open>
  The table holding the stored states \<open>sa\<close>, \<open>sn\<close>, \<open>sb\<close>, \<open>sl\<close> and \<open>su\<close> for
  \<^verbatim>\<open>ATTENTION\<close>, \<^verbatim>\<open>NOTIFICATIONS\<close>, \<^verbatim>\<open>BATTERY\<close>, \<^verbatim>\<open>BACKLIGHT\<close> and \<^verbatim>\<open>BUTTONS\<close>: the
  tables that satisfy \<open>is_backends\<close> are exactly these (lemma \<open>is_backends_table\<close>).
\<close>

definition table ::
  "HwLightState \<Rightarrow> HwLightState \<Rightarrow> HwLightState \<Rightarrow> HwLightState \<Rightarrow> HwLightState
    \<Rightarrow> LightBackend list" where
  "table sa sn sb sl su =
     [\<lparr>type = ATTENTION, handler = HandleNotification, state = sa\<rparr>,
      \<lparr>type = NOTIFICATIONS, handler = HandleNotification, state = sn\<rparr>,
      \<lparr>type = BATTERY, handler = HandleNotification, state = sb\<rparr>,
      \<lparr>type = BACKLIGHT, handler = HandleBacklight, state = sl\<rparr>,
      \<lparr>type = BUTTONS, handler = HandleButtons, state = su\<rparr>]"

text \<open>Requests for a steady and for a blinking colour, used in examples.\<close>

definition solid :: "int32_t \<Rightarrow> HwLightState" where
  "solid c =
     \<lparr>color = c, flashMode = NONE, flashOnMs = 0, flashOffMs = 0, brightnessMode = 0\<rparr>"

definition blinking :: "int32_t \<Rightarrow> int32_t \<Rightarrow> int32_t \<Rightarrow> HwLightState" where
  "blinking c on off =
     \<lparr>color = c, flashMode = TIMED, flashOnMs = on, flashOffMs = off, brightnessMode = 0\<rparr>"

section \<open>The specification's description of the brightness computation\<close>

text \<open>
  The channels of a packed colour, read as a natural number, and the computation as the
  specification words it: every channel is dimmed by alpha unless alpha is \<^verbatim>\<open>0xFF\<close>, the
  luma has the weights 77, 150 and 29 over 256, and the result is scaled by
  \<open>maxBrightness / 255\<close>, all with truncating division.
\<close>

definition argb_alpha :: "nat \<Rightarrow> nat" where "argb_alpha c = c div 2 ^ 24 mod 256"
definition argb_red :: "nat \<Rightarrow> nat" where "argb_red c = c div 2 ^ 16 mod 256"
definition argb_green :: "nat \<Rightarrow> nat" where "argb_green c = c div 2 ^ 8 mod 256"
definition argb_blue :: "nat \<Rightarrow> nat" where "argb_blue c = c mod 256"

definition spec_dim :: "nat \<Rightarrow> nat \<Rightarrow> nat" where
  "spec_dim alpha c = (if alpha \<noteq> 255 then c * alpha div 255 else c)"

definition spec_luma :: "nat \<Rightarrow> nat" where
  "spec_luma c =
     (77 * spec_dim (argb_alpha c) (argb_red c)
      + 150 * spec_dim (argb_alpha c) (argb_green c)
      + 29 * spec_dim (argb_alpha c) (argb_blue c)) div 256"

definition spec_scaled :: "nat \<Rightarrow> nat \<Rightarrow> nat" where
  "spec_scaled c m = spec_luma c * m div 255"

text \<open>The colour packed from four channel bytes: alpha, red, green, blue.\<close>

definition argb :: "nat \<Rightarrow> nat \<Rightarrow> nat \<Rightarrow> nat \<Rightarrow> int32_t" where
  "argb a r g b = word_of_nat (a * 16777216 + r * 65536 + g * 256 + b)"

section \<open>The specification's description of the duty-cycle ramp\<close>

text \<open>
  The eight duty values for a brightness \<open>b\<close>, each \<open>pct * b div 255\<close> for the percentages
  of the table, and a list of strings joined by commas.
\<close>

definition spec_ramp_values :: "nat \<Rightarrow> nat list" where
  "spec_ramp_values b = map (\<lambda>pct. pct * b div 255) [0, 12, 25, 37, 50, 72, 85, 100]"

fun comma_separated :: "string list \<Rightarrow> string" where
  "comma_separated [] = []"
| "comma_separated [x] = x"
| "comma_separated (x # y # ys) = x @ '','' @ comma_separated (y # ys)"

section \<open>Collections of defining equations\<close>

lemmas path_defs = LEDS_def BUTTON1_LED_def BUTTON_LED_def LCD_LED_def WHITE_LED_def
  BLINK_def BRIGHTNESS_def DUTY_PCTS_def PAUSE_HI_def PAUSE_LO_def RAMP_STEP_MS_def
  START_IDX_def

declare string_of_nat.simps [simp del]

section \<open>Words and natural numbers\<close>

lemma ff_mask: "(0xFF::32 word) = mask 8"
  by (simp add: mask_eq_exp_minus_1)

lemma signed_shift_masked:
  "n \<le> 24 \<Longrightarrow> signed_drop_bit n (c::32 word) AND 0xFF = drop_bit n c AND 0xFF"
  unfolding ff_mask by (rule bit_eqI) (auto simp: bit_simps)

lemma unat_and_ff: "unat ((x::32 word) AND 0xFF) = unat x mod 256"
  unfolding ff_mask by (simp add: unat_mod take_bit_eq_mod flip: take_bit_eq_mask)

lemma unat_channel:
  "n \<le> 24 \<Longrightarrow> unat (signed_drop_bit n (c::32 word) AND 0xFF) = unat c div 2 ^ n mod 256"
proof -
  assume "n \<le> 24"
  then have "unat (signed_drop_bit n c AND 0xFF) = unat (drop_bit n c) mod 256"
    by (simp only: signed_shift_masked unat_and_ff)
  also have "unat (drop_bit n c) = drop_bit n (unat c)"
    by (rule unat_drop_bit_eq)
  also have "\<dots> = unat c div 2 ^ n"
    by (rule drop_bit_eq_div)
  finally show ?thesis .
qed

lemma unat_mul_div_ff:
  fixes x y :: "32 word"
  assumes "unat x \<le> 255" "unat y \<le> 65536"
  shows "unat (x * y div 0xFF) = unat x * unat y div 255"
proof -
  have "unat x * unat y \<le> 255 * 65536"
    using assms by (rule mult_le_mono)
  then have "unat x * unat y < 2 ^ LENGTH(32)"
    by simp
  then have "unat (x * y) = unat x * unat y"
    by (simp only: unat_mult_lem)
  then show ?thesis
    by (simp add: unat_div)
qed

lemma unat_weighted_sum:
  fixes r g b :: "32 word"
  assumes "unat r \<le> 255" "unat g \<le> 255" "unat b \<le> 255"
  shows "unat (drop_bit 8 (77 * r + 150 * g + 29 * b))
         = (77 * unat r + 150 * unat g + 29 * unat b) div 256"
proof -
  have "77 * r + 150 * g + 29 * b = word_of_nat (77 * unat r + 150 * unat g + 29 * unat b)"
    by simp
  moreover have "77 * unat r + 150 * unat g + 29 * unat b < 2 ^ LENGTH(32)"
    using assms by simp
  ultimately have "unat (77 * r + 150 * g + 29 * b) = 77 * unat r + 150 * unat g + 29 * unat b"
    by (simp only: unat_of_nat) simp
  then show ?thesis
    by (simp add: unat_drop_bit_eq drop_bit_eq_div unat_div)
qed

section \<open>The brightness translator\<close>

lemma spec_dim_le: "c \<le> 255 \<Longrightarrow> a \<le> 255 \<Longrightarrow> spec_dim a c \<le> 255"
proof -
  assume c: "c \<le> 255" and a: "a \<le> 255"
  have "c * a \<le> 255 * 255"
    using c a by (rule mult_le_mono)
  then have "c * a div 255 \<le> 255"
    by simp
  with c show ?thesis
    by (simp add: spec_dim_def)
qed

lemma unat_dim:
  fixes a c :: "32 word"
  assumes "unat c \<le> 255" "unat a \<le> 255"
  shows "unat (if a \<noteq> 0xFF then c * a div 0xFF else c) = spec_dim (unat a) (unat c)"
proof -
  have "a \<noteq> 0xFF \<longleftrightarrow> unat a \<noteq> 255"
    by (simp add: word_unat_eq_iff)
  then show ?thesis
    using assms by (simp add: spec_dim_def unat_mul_div_ff)
qed

lemma unat_getBrightness: "unat (getBrightness st) = spec_luma (unat (color st))"
proof -
  define c where "c = color st"
  define a where "a = signed_drop_bit 24 c AND 0xFF"
  define r where "r = signed_drop_bit 16 c AND 0xFF"
  define g where "g = signed_drop_bit 8 c AND 0xFF"
  define b where "b = c AND 0xFF"
  have ua: "unat a = argb_alpha (unat c)" by (simp add: a_def unat_channel argb_alpha_def)
  have ur: "unat r = argb_red (unat c)" by (simp add: r_def unat_channel argb_red_def)
  have ug: "unat g = argb_green (unat c)" by (simp add: g_def unat_channel argb_green_def)
  have ub: "unat b = argb_blue (unat c)" by (simp add: b_def unat_and_ff argb_blue_def)
  have la: "unat a \<le> 255" by (simp add: ua argb_alpha_def)
  have lr: "unat r \<le> 255" by (simp add: ur argb_red_def)
  have lg: "unat g \<le> 255" by (simp add: ug argb_green_def)
  have lb: "unat b \<le> 255" by (simp add: ub argb_blue_def)
  define r' where "r' = (if a \<noteq> 0xFF then r * a div 0xFF else r)"
  define g' where "g' = (if a \<noteq> 0xFF then g * a div 0xFF else g)"
  define b' where "b' = (if a \<noteq> 0xFF then b * a div 0xFF else b)"
  have ur': "unat r' = spec_dim (unat a) (unat r)"
    unfolding r'_def using lr la by (rule unat_dim)
  have ug': "unat g' = spec_dim (unat a) (unat g)"
    unfolding g'_def using lg la by (rule unat_dim)
  have ub': "unat b' = spec_dim (unat a) (unat b)"
    unfolding b'_def using lb la by (rule unat_dim)
  have "getBrightness st = drop_bit 8 (77 * r' + 150 * g' + 29 * b')"
    by (simp add: getBrightness_def Let_def r'_def g'_def b'_def a_def r_def g_def b_def c_def)
  moreover have "unat r' \<le> 255" "unat g' \<le> 255" "unat b' \<le> 255"
    using la lr lg lb by (simp_all add: ur' ug' ub' spec_dim_le)
  ultimately have "unat (getBrightness st)
      = (77 * unat r' + 150 * unat g' + 29 * unat b') div 256"
    by (simp only: unat_weighted_sum)
  then show ?thesis
    by (simp add: spec_luma_def ur' ug' ub' ua ur ug ub c_def)
qed

lemma spec_luma_le: "spec_luma c \<le> 255"
proof -
  have "spec_dim (argb_alpha c) (argb_red c) \<le> 255"
       "spec_dim (argb_alpha c) (argb_green c) \<le> 255"
       "spec_dim (argb_alpha c) (argb_blue c) \<le> 255"
    by (simp_all add: spec_dim_le argb_alpha_def argb_red_def argb_green_def argb_blue_def)
  then show ?thesis
    by (simp add: spec_luma_def)
qed

lemma unat_getScaledBrightness:
  assumes "unat m \<le> 16843009"
  shows "unat (getScaledBrightness st m) = spec_scaled (unat (color st)) (unat m)"
proof -
  have "unat (getBrightness st) \<le> 255"
    by (simp add: unat_getBrightness spec_luma_le)
  then have "unat (getBrightness st) * unat m \<le> 255 * 16843009"
    using assms by (rule mult_le_mono)
  then have "unat (getBrightness st) * unat m < 2 ^ LENGTH(32)"
    by simp
  then have "unat (getBrightness st * m) = unat (getBrightness st) * unat m"
    by (simp only: unat_mult_lem)
  then show ?thesis
    by (simp add: getScaledBrightness_def scaleBrightness_def unat_div spec_scaled_def
        unat_getBrightness)
qed

text \<open>
  C3. For every packed colour the scaled brightness is the specification's computation:
  alpha, red, green and blue are the four bytes of the colour; unless alpha is \<^verbatim>\<open>0xFF\<close>
  each channel \<open>c\<close> becomes \<open>c * alpha div 255\<close>; the luma is
  \<open>(77 * red + 150 * green + 29 * blue) div 256\<close>; the result is
  \<open>luma * maxBrightness div 255\<close>. This holds for every \<open>maxBrightness\<close> up to 16843009,
  where the unsigned product cannot wrap, so for the two ranges 255 and 4095 of the
  program. Black with full alpha gives 0 in both ranges, and \<^verbatim>\<open>0xFFFFFFFF\<close> gives 255 and
  4095.
\<close>

theorem getScaledBrightness_is_spec_scaled:
  "(unat maxBrightness \<le> 16843009 \<longrightarrow>
      unat (getScaledBrightness st maxBrightness)
      = spec_scaled (unat (color st)) (unat maxBrightness))
   \<and> unat (getScaledBrightness st MAX_LED_BRIGHTNESS) = spec_scaled (unat (color st)) 255
   \<and> unat (getScaledBrightness st MAX_LCD_BRIGHTNESS) = spec_scaled (unat (color st)) 4095
   \<and> getScaledBrightness (st\<lparr>color := 0xFF000000\<rparr>) MAX_LED_BRIGHTNESS = 0
   \<and> getScaledBrightness (st\<lparr>color := 0xFF000000\<rparr>) MAX_LCD_BRIGHTNESS = 0
   \<and> getScaledBrightness (st\<lparr>color := 0xFFFFFFFF\<rparr>) MAX_LED_BRIGHTNESS = 255
   \<and> getScaledBrightness (st\<lparr>color := 0xFFFFFFFF\<rparr>) MAX_LCD_BRIGHTNESS = 4095"
proof -
  have led: "unat (getScaledBrightness st MAX_LED_BRIGHTNESS) = spec_scaled (unat (color st)) 255"
    using unat_getScaledBrightness [of MAX_LED_BRIGHTNESS st]
    by (simp add: MAX_LED_BRIGHTNESS_def)
  have lcd: "unat (getScaledBrightness st MAX_LCD_BRIGHTNESS) = spec_scaled (unat (color st)) 4095"
    using unat_getScaledBrightness [of MAX_LCD_BRIGHTNESS st]
    by (simp add: MAX_LCD_BRIGHTNESS_def)
  have gen: "unat maxBrightness \<le> 16843009 \<longrightarrow>
      unat (getScaledBrightness st maxBrightness)
      = spec_scaled (unat (color st)) (unat maxBrightness)"
    by (simp add: unat_getScaledBrightness)
  have black: "getBrightness (st\<lparr>color := 0xFF000000\<rparr>) = 0"
    by (simp add: getBrightness_def)
  have white: "getBrightness (st\<lparr>color := 0xFFFFFFFF\<rparr>) = 255"
    by (simp add: getBrightness_def)
  have b1: "getScaledBrightness (st\<lparr>color := 0xFF000000\<rparr>) MAX_LED_BRIGHTNESS = 0"
    by (simp add: getScaledBrightness_def scaleBrightness_def black)
  have b2: "getScaledBrightness (st\<lparr>color := 0xFF000000\<rparr>) MAX_LCD_BRIGHTNESS = 0"
    by (simp add: getScaledBrightness_def scaleBrightness_def black)
  have w1: "getScaledBrightness (st\<lparr>color := 0xFFFFFFFF\<rparr>) MAX_LED_BRIGHTNESS = 255"
    by (simp add: getScaledBrightness_def scaleBrightness_def white MAX_LED_BRIGHTNESS_def)
  have w2: "getScaledBrightness (st\<lparr>color := 0xFFFFFFFF\<rparr>) MAX_LCD_BRIGHTNESS = 4095"
    by (simp add: getScaledBrightness_def scaleBrightness_def white MAX_LCD_BRIGHTNESS_def)
  from gen led lcd b1 b2 w1 w2 show ?thesis
    by (intro conjI)
qed

theorem getScaledBrightness_is_spec_scaled_witness:
  "unat (4095 :: uint32_t) \<le> 16843009
   \<and> unat (getScaledBrightness (solid 0x80FF8040) 4095) = 1268
   \<and> spec_scaled (unat (0x80FF8040 :: int32_t)) (unat (4095 :: uint32_t)) = 1268"
  using getScaledBrightness_is_spec_scaled [of 4095 "solid 0x80FF8040"]
  by (simp add: solid_def spec_scaled_def spec_luma_def spec_dim_def argb_alpha_def
      argb_red_def argb_green_def argb_blue_def)

section \<open>Decimal strings and evaluation\<close>

lemma to_string_0: "to_string 0 = ''0''"
  by (simp add: to_string_def string_of_nat.simps digit_char_def)
lemma to_string_1: "to_string 1 = ''1''"
  by (simp add: to_string_def string_of_nat.simps digit_char_def)

lemma blink_timing_unfold:
  "blink_timing st =
     (if sint (flashOnMs st - 800) < 0 then (sdiv32 (flashOnMs st) 16, 0, flashOffMs st)
      else (50, flashOnMs st - 800, flashOffMs st))"
  by (simp add: blink_timing_def Let_def RAMP_STEP_DURATION_def RAMP_STEPS_def)

lemma blink_timing_1000: "blink_timing (st\<lparr>flashOnMs := 1000\<rparr>) = (50, 200, flashOffMs st)"
  by (simp add: blink_timing_unfold)

lemma blink_timing_100: "blink_timing (st\<lparr>flashOnMs := 100\<rparr>) = (6, 0, flashOffMs st)"
  by (simp add: blink_timing_unfold sdiv32_def signed_divide_int_def)

lemmas eval_defs = handleNotification_def Let_def set_int_def set_str_def path_defs
  getScaledBrightness_def scaleBrightness_def getBrightness_def MAX_LED_BRIGHTNESS_def
  MAX_LCD_BRIGHTNESS_def getScaledRamp_def BRIGHTNESS_RAMP_def blink_timing_unfold sdiv32_def
  signed_divide_int_def to_string_def string_of_nat.simps digit_char_def solid_def
  blinking_def

section \<open>Blink timing\<close>

lemma sint_sub_800:
  fixes x :: "32 word"
  assumes "- 2147482848 \<le> sint x"
  shows "sint (x - 800) = sint x - 800"
proof -
  have "sint x < 2 ^ (LENGTH(32) - 1)" by (rule sint_lt)
  then have "sint x - 800 < 2 ^ 31" by simp
  moreover have "- (2 ^ 31) \<le> sint x - 800" using assms by simp
  ultimately have "signed_take_bit 31 (sint x - 800) = sint x - 800"
    by (simp only: signed_take_bit_int_eq_self)
  then show ?thesis
    by (simp add: sint_word_diff)
qed

lemma sdiv16: "(k::int) sdiv 16 = (if 0 \<le> k then k div 16 else - ((- k) div 16))"
  by (simp add: signed_divide_int_def sgn_if)

lemma sdiv_16_bounds:
  fixes k :: int
  shows "min k 0 \<le> k sdiv 16" "k sdiv 16 \<le> max k 0"
proof -
  have a: "0 \<le> \<bar>k\<bar> div 16" by simp
  have b: "\<bar>k\<bar> div 16 \<le> \<bar>k\<bar>" by (cases "k = 0") (simp_all add: int_div_le_self)
  show "min k 0 \<le> k sdiv 16" using a b by (cases "0 \<le> k") (simp_all add: sdiv16)
  show "k sdiv 16 \<le> max k 0" using a b by (cases "0 \<le> k") (simp_all add: sdiv16)
qed

lemma sdiv_16_range:
  fixes k :: int
  assumes "- 2147483648 \<le> k" "k < 2147483648"
  shows "- 2147483648 \<le> k sdiv 16" "k sdiv 16 < 2147483648"
  using assms sdiv_16_bounds [of k] by linarith+

lemma sint_sdiv32_16: "sint (sdiv32 x 16) = sint x sdiv 16"
proof -
  have lo: "- 2147483648 \<le> sint x" using sint_ge [of x] by simp
  have hi: "sint x < 2147483648" using sint_lt [of x] by simp
  have "- 2147483648 \<le> sint x sdiv 16" "sint x sdiv 16 < 2147483648"
    using lo hi by (rule sdiv_16_range)+
  then have "- (2 ^ 31) \<le> sint x sdiv 16" "sint x sdiv 16 < 2 ^ 31"
    by simp_all
  then have "signed_take_bit 31 (sint x sdiv 16) = sint x sdiv 16"
    by (simp only: signed_take_bit_int_eq_self)
  then show ?thesis
    by (simp add: sdiv32_def sint_sbintrunc')
qed

text \<open>
  C4. In the \<^verbatim>\<open>TIMED\<close> path, for every \<^verbatim>\<open>flashOnMs\<close> from \<open>INT_MIN + 800\<close> on (below, the
  signed subtraction overflows, which C++ leaves undefined) and every \<^verbatim>\<open>flashOffMs\<close>:
  \<^verbatim>\<open>pauseHi\<close> is \<open>flashOnMs - 50 * 8 * 2\<close> and the step duration is 50, unless that
  difference is negative, when the step duration is \<open>flashOnMs / 16\<close> (the truncating
  division of C++) and \<^verbatim>\<open>pauseHi\<close> is 0; \<^verbatim>\<open>pauseLo\<close> is \<^verbatim>\<open>flashOffMs\<close> as given. With
  \<^verbatim>\<open>flashOnMs\<close> 1000 the result is step 50 and \<^verbatim>\<open>pauseHi\<close> 200; with 100 it is step 6 and
  \<^verbatim>\<open>pauseHi\<close> 0.
\<close>

theorem blink_timing_spec:
  "(- 2147482848 \<le> sint (flashOnMs st) \<longrightarrow>
      (case blink_timing st of (stepDuration, pauseHi, pauseLo) \<Rightarrow>
         sint pauseHi = (if sint (flashOnMs st) - 50 * 8 * 2 < 0 then 0
                         else sint (flashOnMs st) - 50 * 8 * 2)
         \<and> sint stepDuration = (if sint (flashOnMs st) - 50 * 8 * 2 < 0
                                then sint (flashOnMs st) sdiv 16 else 50)
         \<and> pauseLo = flashOffMs st))
   \<and> blink_timing (st\<lparr>flashOnMs := 1000\<rparr>) = (50, 200, flashOffMs st)
   \<and> blink_timing (st\<lparr>flashOnMs := 100\<rparr>) = (6, 0, flashOffMs st)"
proof -
  have gen: "- 2147482848 \<le> sint (flashOnMs st) \<longrightarrow>
      (case blink_timing st of (stepDuration, pauseHi, pauseLo) \<Rightarrow>
         sint pauseHi = (if sint (flashOnMs st) - 50 * 8 * 2 < 0 then 0
                         else sint (flashOnMs st) - 50 * 8 * 2)
         \<and> sint stepDuration = (if sint (flashOnMs st) - 50 * 8 * 2 < 0
                                then sint (flashOnMs st) sdiv 16 else 50)
         \<and> pauseLo = flashOffMs st)"
    by (simp add: blink_timing_unfold sint_sub_800 sint_sdiv32_16)
  from gen blink_timing_1000 blink_timing_100 show ?thesis by (intro conjI)
qed

theorem blink_timing_spec_witness:
  "- 2147482848 \<le> sint (flashOnMs (blinking 0xFF00FF00 500 2000))
   \<and> blink_timing (blinking 0xFF00FF00 500 2000) = (31, 0, 2000)
   \<and> sint (500 :: int32_t) sdiv 16 = 31"
  using blink_timing_spec [of "blinking 0xFF00FF00 500 2000"]
  by (simp add: blinking_def blink_timing_unfold sdiv32_def signed_divide_int_def)

section \<open>The duty-cycle ramp\<close>

lemma uint_step:
  fixes step b :: "32 word"
  assumes "unat step \<le> 100" "unat b \<le> 42949672"
  shows "uint (step * b div 0xFF) = int (unat step * unat b div 255)"
proof -
  have "unat step * unat b \<le> 100 * 42949672"
    using assms by (rule mult_le_mono)
  then have "unat step * unat b < 2 ^ LENGTH(32)"
    by simp
  then have "unat (step * b) = unat step * unat b"
    by (simp only: unat_mult_lem)
  then have "unat (step * b div 0xFF) = unat step * unat b div 255"
    by (simp add: unat_div)
  then show ?thesis
    by (simp add: uint_nat)
qed

lemma digit_char_no_comma: "digit_char d \<noteq> CHR '',''"
proof -
  have "d mod 10 < length ''0123456789''"
    by simp
  then have "digit_char d \<in> set ''0123456789''"
    unfolding digit_char_def by (rule nth_mem)
  then show ?thesis
    by auto
qed

lemma string_of_nat_no_comma: "CHR '','' \<notin> set (string_of_nat n)"
proof (induction n rule: string_of_nat.induct)
  case (1 n)
  show ?case
  proof (cases "n < 10")
    case True
    then show ?thesis
      using digit_char_no_comma [of n] by (subst string_of_nat.simps) auto
  next
    case False
    then show ?thesis
      using 1 digit_char_no_comma [of "n mod 10"] by (subst string_of_nat.simps) auto
  qed
qed

lemma to_string_nat_no_comma: "CHR '','' \<notin> set (to_string (int n))"
  by (simp add: to_string_def string_of_nat_no_comma)

lemma commas_comma_separated:
  "\<forall>x\<in>set xs. CHR '','' \<notin> set x \<Longrightarrow>
   length (filter (\<lambda>c. c = CHR '','') (comma_separated xs)) = length xs - 1"
proof (induction xs rule: comma_separated.induct)
  case 1
  then show ?case by simp
next
  case (2 x)
  then have "filter (\<lambda>c. c = CHR '','') x = []"
    by (auto simp: filter_empty_conv)
  then show ?case by simp
next
  case (3 x y ys)
  then have "filter (\<lambda>c. c = CHR '','') x = []"
    by (auto simp: filter_empty_conv)
  with 3 show ?case by simp
qed

lemma getScaledBrightness_led_le: "unat (getScaledBrightness st MAX_LED_BRIGHTNESS) \<le> 255"
proof -
  have "unat (getScaledBrightness st MAX_LED_BRIGHTNESS) = spec_luma (unat (color st))"
    using unat_getScaledBrightness [of MAX_LED_BRIGHTNESS st]
    by (simp add: MAX_LED_BRIGHTNESS_def spec_scaled_def)
  then show ?thesis
    by (simp add: spec_luma_le)
qed

text \<open>
  C5. For every brightness \<open>b\<close> up to 42949672 (where \<open>100 * b\<close> does not wrap around in
  32 bits) the ramp string is the eight numbers \<open>pct * b div 255\<close>, for the percentages 0,
  12, 25, 37, 50, 72, 85 and 100 in this order, printed in decimal and separated by
  commas: it holds exactly seven commas. The brightness the notification handler passes
  is at most 255, so every ramp it writes is of this form. For \<open>b = 200\<close> the string is
  \<^verbatim>\<open>0,9,19,29,39,56,66,78\<close>.
\<close>

theorem getScaledRamp_spec:
  "(unat b \<le> 42949672 \<longrightarrow>
      getScaledRamp b
        = comma_separated (map (\<lambda>v. to_string (int v)) (spec_ramp_values (unat b)))
      \<and> length (filter (\<lambda>c. c = CHR '','') (getScaledRamp b)) = 7)
   \<and> length (spec_ramp_values (unat b)) = 8
   \<and> getScaledRamp (getScaledBrightness st MAX_LED_BRIGHTNESS)
       = comma_separated (map (\<lambda>v. to_string (int v))
           (spec_ramp_values (unat (getScaledBrightness st MAX_LED_BRIGHTNESS))))
   \<and> getScaledRamp 200 = ''0,9,19,29,39,56,66,78''"
proof -
  have len: "length (spec_ramp_values (unat b)) = 8"
    by (simp add: spec_ramp_values_def)
  have gen: "getScaledRamp x
        = comma_separated (map (\<lambda>v. to_string (int v)) (spec_ramp_values (unat x)))"
    if "unat x \<le> 42949672" for x
    using that by (simp add: getScaledRamp_def BRIGHTNESS_RAMP_def spec_ramp_values_def uint_step)
  have commas: "length (filter (\<lambda>c. c = CHR '','') (getScaledRamp b)) = 7"
    if "unat b \<le> 42949672"
  proof -
    have "length (filter (\<lambda>c. c = CHR '','')
            (comma_separated (map (\<lambda>v. to_string (int v)) (spec_ramp_values (unat b)))))
          = length (map (\<lambda>v. to_string (int v)) (spec_ramp_values (unat b))) - 1"
      by (rule commas_comma_separated) (simp add: to_string_nat_no_comma)
    then show ?thesis
      by (simp add: gen [OF that] len)
  qed
  have "unat (getScaledBrightness st MAX_LED_BRIGHTNESS) \<le> 42949672"
    using getScaledBrightness_led_le [of st] by simp
  then have led: "getScaledRamp (getScaledBrightness st MAX_LED_BRIGHTNESS)
       = comma_separated (map (\<lambda>v. to_string (int v))
           (spec_ramp_values (unat (getScaledBrightness st MAX_LED_BRIGHTNESS))))"
    by (rule gen)
  have ex: "getScaledRamp 200 = ''0,9,19,29,39,56,66,78''"
    by (simp add: eval_defs)
  from gen [of b] commas len led ex show ?thesis
    by blast
qed

theorem getScaledRamp_spec_witness:
  "unat (149 :: uint32_t) \<le> 42949672
   \<and> getScaledRamp 149 = ''0,7,14,21,29,42,49,58''
   \<and> map (\<lambda>v. to_string (int v)) (spec_ramp_values (unat (149 :: uint32_t)))
       = [''0'', ''7'', ''14'', ''21'', ''29'', ''42'', ''49'', ''58'']"
  using getScaledRamp_spec [of 149]
  by (simp add: spec_ramp_values_def to_string_def string_of_nat.simps digit_char_def)

section \<open>The writes of the notification handler\<close>

text \<open>
  C8. Every run of \<^verbatim>\<open>handleNotification\<close> first writes 0 to \<^verbatim>\<open>blink\<close>. In the \<^verbatim>\<open>TIMED\<close>
  branch the writes that follow are \<^verbatim>\<open>start_idx\<close>, \<^verbatim>\<open>duty_pcts\<close>, \<^verbatim>\<open>pause_lo\<close>,
  \<^verbatim>\<open>pause_hi\<close> and \<^verbatim>\<open>ramp_step_ms\<close>, and the write of 1 to \<^verbatim>\<open>blink\<close> is the last one.
  In every other flash mode the only write after the first is the scaled brightness to
  \<^verbatim>\<open>brightness\<close>, and no ramp parameter is written.
\<close>

theorem handleNotification_writes:
  "(flashMode st = TIMED \<longrightarrow>
      handleNotification st =
        [(''/sys/class/leds/white/blink'', ''0''),
         (''/sys/class/leds/white/start_idx'', ''0''),
         (''/sys/class/leds/white/duty_pcts'',
            getScaledRamp (getScaledBrightness st MAX_LED_BRIGHTNESS)),
         (''/sys/class/leds/white/pause_lo'', to_string (sint (snd (snd (blink_timing st))))),
         (''/sys/class/leds/white/pause_hi'', to_string (sint (fst (snd (blink_timing st))))),
         (''/sys/class/leds/white/ramp_step_ms'', to_string (sint (fst (blink_timing st)))),
         (''/sys/class/leds/white/blink'', ''1'')])
   \<and> (flashMode st \<noteq> TIMED \<longrightarrow>
      handleNotification st =
        [(''/sys/class/leds/white/blink'', ''0''),
         (''/sys/class/leds/white/brightness'',
            to_string (sint (getScaledBrightness st MAX_LED_BRIGHTNESS)))])"
  by (simp add: handleNotification_def Let_def set_int_def set_str_def path_defs
      to_string_0 to_string_1 split_beta)

theorem handleNotification_writes_witness:
  "flashMode (blinking 0xFF00FF00 500 2000) = TIMED
   \<and> handleNotification (blinking 0xFF00FF00 500 2000) =
        [(''/sys/class/leds/white/blink'', ''0''),
         (''/sys/class/leds/white/start_idx'', ''0''),
         (''/sys/class/leds/white/duty_pcts'', ''0,7,14,21,29,42,49,58''),
         (''/sys/class/leds/white/pause_lo'', ''2000''),
         (''/sys/class/leds/white/pause_hi'', ''0''),
         (''/sys/class/leds/white/ramp_step_ms'', ''31''),
         (''/sys/class/leds/white/blink'', ''1'')]
   \<and> flashMode (solid 0xFF00FF00) \<noteq> TIMED
   \<and> handleNotification (solid 0xFF00FF00) =
        [(''/sys/class/leds/white/blink'', ''0''),
         (''/sys/class/leds/white/brightness'', ''149'')]"
  using handleNotification_writes [of "blinking 0xFF00FF00 500 2000"]
    handleNotification_writes [of "solid 0xFF00FF00"]
  by (simp add: eval_defs)

section \<open>The table and its states\<close>

lemma is_backends_table: "is_backends bs \<longleftrightarrow> (\<exists>sa sn sb sl su. bs = table sa sn sb sl su)"
proof
  assume a: "is_backends bs"
  then have "length (map type bs) = 5" by (simp add: is_backends_def)
  then have "length bs = 5" by simp
  then obtain b0 b1 b2 b3 b4 where bs: "bs = [b0, b1, b2, b3, b4]"
    by (auto simp: length_Suc_conv numeral_eq_Suc)
  have "bs = table (state b0) (state b1) (state b2) (state b3) (state b4)"
    using a unfolding bs by (simp add: is_backends_def table_def)
  then show "\<exists>sa sn sb sl su. bs = table sa sn sb sl su" by blast
next
  assume "\<exists>sa sn sb sl su. bs = table sa sn sb sl su"
  then show "is_backends bs" by (auto simp: is_backends_def table_def)
qed

lemma is_backends_tableI: "is_backends (table sa sn sb sl su)"
  by (simp add: is_backends_def table_def)

lemma setLightState_ATTENTION:
  "setLightState ATTENTION st (table sa sn sb sl su) =
     (ok, [(HandleNotification,
            if isLit st then st else if isLit sn then sn else if isLit sb then sb else st)],
      table st sn sb sl su)"
  by (simp add: setLightState_def table_def)

lemma setLightState_NOTIFICATIONS:
  "setLightState NOTIFICATIONS st (table sa sn sb sl su) =
     (ok, [(HandleNotification,
            if isLit sa then sa else if isLit st then st else if isLit sb then sb else st)],
      table sa st sb sl su)"
  by (simp add: setLightState_def table_def)

lemma setLightState_BATTERY:
  "setLightState BATTERY st (table sa sn sb sl su) =
     (ok, [(HandleNotification, if isLit sa then sa else if isLit sn then sn else st)],
      table sa sn st sl su)"
  by (simp add: setLightState_def table_def)

lemma setLightState_BACKLIGHT:
  "setLightState BACKLIGHT st (table sa sn sb sl su) =
     (ok, [(HandleBacklight, st)], table sa sn sb st su)"
  by (simp add: setLightState_def table_def)

lemma setLightState_BUTTONS:
  "setLightState BUTTONS st (table sa sn sb sl su) =
     (ok, [(HandleButtons, st)], table sa sn sb sl st)"
  by (simp add: setLightState_def table_def)

lemma setLightState_other:
  "ty \<notin> {ATTENTION, NOTIFICATIONS, BATTERY, BACKLIGHT, BUTTONS} \<Longrightarrow>
   setLightState ty st (table sa sn sb sl su) =
     (EX_UNSUPPORTED_OPERATION, [], table sa sn sb sl su)"
  by (auto simp: setLightState_def table_def)

lemmas setLightState_table = setLightState_ATTENTION setLightState_NOTIFICATIONS
  setLightState_BATTERY setLightState_BACKLIGHT setLightState_BUTTONS

lemma table_nth:
  "table sa sn sb sl su ! 0 = \<lparr>type = ATTENTION, handler = HandleNotification, state = sa\<rparr>"
  "table sa sn sb sl su ! Suc 0 = \<lparr>type = NOTIFICATIONS, handler = HandleNotification, state = sn\<rparr>"
  "table sa sn sb sl su ! 2 = \<lparr>type = BATTERY, handler = HandleNotification, state = sb\<rparr>"
  "table sa sn sb sl su ! 3 = \<lparr>type = BACKLIGHT, handler = HandleBacklight, state = sl\<rparr>"
  "table sa sn sb sl su ! 4 = \<lparr>type = BUTTONS, handler = HandleButtons, state = su\<rparr>"
  by (simp_all add: table_def)

lemma table_update:
  "(table sa sn sb sl su)[0 := \<lparr>type = ATTENTION, handler = HandleNotification, state = s\<rparr>]
   = table s sn sb sl su"
  "(table sa sn sb sl su)[Suc 0 := \<lparr>type = NOTIFICATIONS, handler = HandleNotification, state = s\<rparr>]
   = table sa s sb sl su"
  "(table sa sn sb sl su)[2 := \<lparr>type = BATTERY, handler = HandleNotification, state = s\<rparr>]
   = table sa sn s sl su"
  "(table sa sn sb sl su)[3 := \<lparr>type = BACKLIGHT, handler = HandleBacklight, state = s\<rparr>]
   = table sa sn sb s su"
  "(table sa sn sb sl su)[4 := \<lparr>type = BUTTONS, handler = HandleButtons, state = s\<rparr>]
   = table sa sn sb sl s"
  by (simp_all add: table_def numeral_eq_Suc)

lemmas table_simps = table_nth table_update setLightState_table

lemma all_less_2: "(\<forall>k<(2::nat). P k) \<longleftrightarrow> P 0 \<and> P (Suc 0)"
  by (auto simp: numeral_2_eq_2 less_Suc_eq)

lemma less_5_cases: "(j::nat) < 5 \<Longrightarrow> j = 0 \<or> j = 1 \<or> j = 2 \<or> j = 3 \<or> j = 4"
  by arith

lemma all_less_5:
  "(\<forall>k<(5::nat). P k) \<longleftrightarrow> P 0 \<and> P (Suc 0) \<and> P 2 \<and> P 3 \<and> P 4"
proof -
  have "k < 5 \<longleftrightarrow> k = 0 \<or> k = Suc 0 \<or> k = 2 \<or> k = 3 \<or> k = 4" for k :: nat
    by arith
  then show ?thesis
    by auto
qed

lemma select_loop_find:
  "select_loop h bs = map_option state (find (\<lambda>b. h = handler b \<and> isLit (state b)) bs)"
  by (induction bs) simp_all

lemma select_loop_Some_iff:
  "select_loop h bs = Some s \<longleftrightarrow>
     (\<exists>k<length bs. h = handler (bs ! k) \<and> isLit (state (bs ! k)) \<and> s = state (bs ! k)
        \<and> (\<forall>m<k. \<not> (h = handler (bs ! m) \<and> isLit (state (bs ! m)))))"
  by (auto simp: select_loop_find find_Some_iff)

lemma select_loop_None_iff:
  "select_loop h bs = None \<longleftrightarrow>
     (\<forall>k<length bs. \<not> (h = handler (bs ! k) \<and> isLit (state (bs ! k))))"
  by (auto simp: select_loop_find find_None_iff in_set_conv_nth)

lemma select_loop_table:
  "select_loop HandleNotification (table sa sn sb sl su)
     = (if isLit sa then Some sa else if isLit sn then Some sn
        else if isLit sb then Some sb else None)"
  "select_loop HandleBacklight (table sa sn sb sl su) = (if isLit sl then Some sl else None)"
  "select_loop HandleButtons (table sa sn sb sl su) = (if isLit su then Some su else None)"
  by (simp_all add: table_def)

lemma length_table: "length (table sa sn sb sl su) = 5"
  by (simp add: table_def)

lemma setLightState_select:
  assumes "is_backends bs" "p < 5"
  shows "setLightState (type (bs ! p)) st bs
         = (ok,
            [(handler (bs ! p),
              case select_loop (handler (bs ! p)) (bs[p := (bs ! p)\<lparr>state := st\<rparr>]) of
                Some lit \<Rightarrow> lit | None \<Rightarrow> st)],
            bs[p := (bs ! p)\<lparr>state := st\<rparr>])"
proof -
  from assms(1) obtain sa sn sb sl su where bs: "bs = table sa sn sb sl su"
    by (auto simp: is_backends_table)
  from assms(2) consider "p = 0" | "p = 1" | "p = 2" | "p = 3" | "p = 4"
    using less_5_cases by blast
  then show ?thesis
    by cases (simp_all add: bs table_simps select_loop_table)
qed

lemma setLightState_first_lit:
  assumes "is_backends bs" "p < 5"
  shows "\<exists>calls bs'. setLightState (type (bs ! p)) st bs = (ok, calls, bs')
           \<and> bs' = bs[p := (bs ! p)\<lparr>state := st\<rparr>]
           \<and> ((\<exists>k<5. handler (bs' ! k) = handler (bs ! p) \<and> isLit (state (bs' ! k))
                    \<and> (\<forall>m<k. \<not> (handler (bs' ! m) = handler (bs ! p) \<and> isLit (state (bs' ! m))))
                    \<and> calls = [(handler (bs ! p), state (bs' ! k))])
                \<or> ((\<forall>k<5. \<not> (handler (bs' ! k) = handler (bs ! p) \<and> isLit (state (bs' ! k))))
                    \<and> calls = [(handler (bs ! p), st)]))"
proof -
  define bs' where "bs' = bs[p := (bs ! p)\<lparr>state := st\<rparr>]"
  have len: "length bs' = 5"
    using assms(1) by (auto simp: bs'_def is_backends_table length_table)
  show ?thesis
  proof (cases "select_loop (handler (bs ! p)) bs'")
    case None
    then have "\<forall>k<5. \<not> (handler (bs' ! k) = handler (bs ! p) \<and> isLit (state (bs' ! k)))"
      using len by (auto simp: select_loop_None_iff)
    moreover have "setLightState (type (bs ! p)) st bs = (ok, [(handler (bs ! p), st)], bs')"
      using assms None by (simp add: setLightState_select bs'_def)
    ultimately show ?thesis
      unfolding bs'_def by blast
  next
    case (Some s)
    then obtain k where k: "k < 5" "handler (bs' ! k) = handler (bs ! p)" "isLit (state (bs' ! k))"
        "s = state (bs' ! k)"
        "\<forall>m<k. \<not> (handler (bs' ! m) = handler (bs ! p) \<and> isLit (state (bs' ! m)))"
      using len by (auto simp: select_loop_Some_iff)
    moreover have "setLightState (type (bs ! p)) st bs = (ok, [(handler (bs ! p), s)], bs')"
      using assms Some by (simp add: setLightState_select bs'_def)
    ultimately show ?thesis
      unfolding bs'_def by blast
  qed
qed

lemma isLit_solid: "isLit (solid c) \<longleftrightarrow> c AND 0x00ffffff \<noteq> 0"
  by (simp add: isLit_def solid_def)

lemma solid_eq_iff: "solid c = solid d \<longleftrightarrow> c = d"
  by (simp add: solid_def)

lemma backends_table: "backends init = table init init init init init"
  by (simp add: backends_def table_def)

lemma is_backends_run_calls: "is_backends bs \<Longrightarrow> is_backends (run_calls cs bs)"
proof (induction cs arbitrary: bs)
  case Nil
  then show ?case by simp
next
  case (Cons c cs)
  obtain ty st where c: "c = (ty, st)"
    by (cases c)
  from Cons.prems obtain sa sn sb sl su where bs: "bs = table sa sn sb sl su"
    by (auto simp: is_backends_table)
  have "is_backends (snd (snd (setLightState ty st bs)))"
  proof (cases "ty \<in> {ATTENTION, NOTIFICATIONS, BATTERY, BACKLIGHT, BUTTONS}")
    case True
    then show ?thesis
      unfolding bs by (auto simp: setLightState_table is_backends_tableI)
  next
    case False
    then show ?thesis
      unfolding bs by (auto simp: setLightState_other is_backends_tableI)
  qed
  then show ?case
    by (simp add: c Cons.IH)
qed

lemma unlit_channels:
  fixes c :: "32 word"
  assumes "c AND 0x00ffffff = 0"
  shows "signed_drop_bit 16 c AND 0xFF = 0" "signed_drop_bit 8 c AND 0xFF = 0" "c AND 0xFF = 0"
proof -
  have m: "(0x00ffffff :: 32 word) = mask 24"
    by (simp add: mask_eq_exp_minus_1)
  have nb: "\<not> bit c n" if "n < 24" for n
  proof
    assume "bit c n"
    then have "bit (c AND mask 24) n"
      using that by (simp add: bit_and_iff bit_mask_iff)
    then show False
      using assms by (simp add: m)
  qed
  show "signed_drop_bit 16 c AND 0xFF = 0"
    unfolding ff_mask by (rule bit_eqI) (auto simp: bit_simps nb)
  show "signed_drop_bit 8 c AND 0xFF = 0"
    unfolding ff_mask by (rule bit_eqI) (auto simp: bit_simps nb)
  show "c AND 0xFF = 0"
    unfolding ff_mask by (rule bit_eqI) (auto simp: bit_simps nb)
qed

lemma unlit_getBrightness: "\<not> isLit st \<Longrightarrow> getBrightness st = 0"
  by (simp add: isLit_def getBrightness_def unlit_channels Let_def)

lemma unlit_getScaledBrightness: "\<not> isLit st \<Longrightarrow> getScaledBrightness st m = 0"
  by (simp add: getScaledBrightness_def scaleBrightness_def unlit_getBrightness)

text \<open>
  C1, as amended. The handler is called once, with the state of the first entry in table
  order that has the handler of the updated class and is lit after the update, or with
  the state just written when no such entry is lit. So for two classes that share the
  notification handler, positions \<open>i < j < 3\<close> of the table: a call for the class at \<open>i\<close>
  with a lit state renders that state provided no class above \<open>i\<close> is stored lit (a lit
  class above \<open>i\<close> is rendered instead); and when the class at \<open>j\<close> is stored lit, a
  following call that sets the class at \<open>i\<close> unlit renders, in that same call, the state
  stored for \<open>j\<close>, provided no other class above \<open>j\<close> is stored lit.
\<close>

theorem setLightState_arbitration:
  assumes "is_backends bs"
  shows
    "(p < 5 \<longrightarrow>
        (\<exists>calls bs'. setLightState (type (bs ! p)) st bs = (ok, calls, bs')
           \<and> bs' = bs[p := (bs ! p)\<lparr>state := st\<rparr>]
           \<and> ((\<exists>k<5. handler (bs' ! k) = handler (bs ! p) \<and> isLit (state (bs' ! k))
                    \<and> (\<forall>m<k. \<not> (handler (bs' ! m) = handler (bs ! p)
                                    \<and> isLit (state (bs' ! m))))
                    \<and> calls = [(handler (bs ! p), state (bs' ! k))])
                \<or> ((\<forall>k<5. \<not> (handler (bs' ! k) = handler (bs ! p)
                                  \<and> isLit (state (bs' ! k))))
                    \<and> calls = [(handler (bs ! p), st)]))))
     \<and> (i < j \<and> j < 3 \<and> isLit s_on \<and> (\<forall>k<i. \<not> isLit (state (bs ! k))) \<longrightarrow>
          setLightState (type (bs ! i)) s_on bs
          = (ok, [(HandleNotification, s_on)], bs[i := (bs ! i)\<lparr>state := s_on\<rparr>]))
     \<and> (i < j \<and> j < 3 \<and> isLit (state (bs ! j)) \<and> \<not> isLit s_off
          \<and> (\<forall>k<j. k \<noteq> i \<longrightarrow> \<not> isLit (state (bs ! k))) \<longrightarrow>
          setLightState (type (bs ! i)) s_off (bs[i := (bs ! i)\<lparr>state := s_on\<rparr>])
          = (ok, [(HandleNotification, state (bs ! j))], bs[i := (bs ! i)\<lparr>state := s_off\<rparr>]))"
proof (intro conjI impI)
  assume "p < 5"
  with assms show "\<exists>calls bs'. setLightState (type (bs ! p)) st bs = (ok, calls, bs')
           \<and> bs' = bs[p := (bs ! p)\<lparr>state := st\<rparr>]
           \<and> ((\<exists>k<5. handler (bs' ! k) = handler (bs ! p) \<and> isLit (state (bs' ! k))
                    \<and> (\<forall>m<k. \<not> (handler (bs' ! m) = handler (bs ! p)
                                    \<and> isLit (state (bs' ! m))))
                    \<and> calls = [(handler (bs ! p), state (bs' ! k))])
                \<or> ((\<forall>k<5. \<not> (handler (bs' ! k) = handler (bs ! p)
                                  \<and> isLit (state (bs' ! k))))
                    \<and> calls = [(handler (bs ! p), st)]))"
    by (rule setLightState_first_lit)
next
  from assms obtain sa sn sb sl su where bs: "bs = table sa sn sb sl su"
    by (auto simp: is_backends_table)
  {
    assume a: "i < j \<and> j < 3 \<and> isLit s_on \<and> (\<forall>k<i. \<not> isLit (state (bs ! k)))"
    then consider "i = 0" | "i = 1"
      by arith
    then show "setLightState (type (bs ! i)) s_on bs
          = (ok, [(HandleNotification, s_on)], bs[i := (bs ! i)\<lparr>state := s_on\<rparr>])"
      using a by cases (simp_all add: bs table_simps)
  }
  {
    assume a: "i < j \<and> j < 3 \<and> isLit (state (bs ! j)) \<and> \<not> isLit s_off
          \<and> (\<forall>k<j. k \<noteq> i \<longrightarrow> \<not> isLit (state (bs ! k)))"
    then consider "i = 0" "j = 1" | "i = 0" "j = 2" | "i = 1" "j = 2"
      by arith
    then show "setLightState (type (bs ! i)) s_off (bs[i := (bs ! i)\<lparr>state := s_on\<rparr>])
          = (ok, [(HandleNotification, state (bs ! j))], bs[i := (bs ! i)\<lparr>state := s_off\<rparr>])"
      using a by cases (simp_all add: bs table_simps all_less_2)
  }
qed

theorem setLightState_arbitration_witness:
  "is_backends (table (solid 0) (solid 0) (solid 0xFF00FF00) (solid 0) (solid 0))
   \<and> isLit (solid 0xFFFF0000) \<and> isLit (solid 0xFF0000FF) \<and> isLit (solid 0xFF00FF00)
   \<and> \<not> isLit (solid 0xFF000000) \<and> \<not> isLit (solid 0)
   \<and> setLightState ATTENTION (solid 0xFFFF0000)
         (table (solid 0) (solid 0) (solid 0xFF00FF00) (solid 0) (solid 0))
       = (ok, [(HandleNotification, solid 0xFFFF0000)],
          table (solid 0xFFFF0000) (solid 0) (solid 0xFF00FF00) (solid 0) (solid 0))
   \<and> setLightState ATTENTION (solid 0xFF000000)
         (table (solid 0xFFFF0000) (solid 0) (solid 0xFF00FF00) (solid 0) (solid 0))
       = (ok, [(HandleNotification, solid 0xFF00FF00)],
          table (solid 0xFF000000) (solid 0) (solid 0xFF00FF00) (solid 0) (solid 0))
   \<and> setLightState NOTIFICATIONS (solid 0xFF0000FF)
         (table (solid 0) (solid 0) (solid 0xFF00FF00) (solid 0) (solid 0))
       = (ok, [(HandleNotification, solid 0xFF0000FF)],
          table (solid 0) (solid 0xFF0000FF) (solid 0xFF00FF00) (solid 0) (solid 0))
   \<and> setLightState NOTIFICATIONS (solid 0xFF000000)
         (table (solid 0) (solid 0xFF0000FF) (solid 0xFF00FF00) (solid 0) (solid 0))
       = (ok, [(HandleNotification, solid 0xFF00FF00)],
          table (solid 0) (solid 0xFF000000) (solid 0xFF00FF00) (solid 0) (solid 0))"
  using
    setLightState_arbitration [of
      "table (solid 0) (solid 0) (solid 0xFF00FF00) (solid 0) (solid 0)"
      0 "solid 0xFFFF0000" 0 2 "solid 0xFFFF0000" "solid 0xFF000000"]
    setLightState_arbitration [of
      "table (solid 0) (solid 0) (solid 0xFF00FF00) (solid 0) (solid 0)"
      1 "solid 0xFF0000FF" 1 2 "solid 0xFF0000FF" "solid 0xFF000000"]
  by (simp add: is_backends_tableI table_simps isLit_solid all_less_2)

text \<open>
  Without the provisos the statement fails for two classes of the group. From a table
  with all lights off, \<^verbatim>\<open>BATTERY\<close> is set to green and \<^verbatim>\<open>ATTENTION\<close> to red. A call that sets
  \<^verbatim>\<open>NOTIFICATIONS\<close>, above the lit \<^verbatim>\<open>BATTERY\<close>, to blue calls the handler with the red
  state of \<^verbatim>\<open>ATTENTION\<close>, not with the blue one. A following call that sets \<^verbatim>\<open>ATTENTION\<close>
  unlit, with \<^verbatim>\<open>BATTERY\<close> below it still lit, calls the handler with the blue state of
  \<^verbatim>\<open>NOTIFICATIONS\<close>, not with the green one of \<^verbatim>\<open>BATTERY\<close>.
\<close>

theorem setLightState_arbitration_counterexample:
  "run_calls [(BATTERY, solid 0xFF00FF00), (ATTENTION, solid 0xFFFF0000)] (backends (solid 0))
     = table (solid 0xFFFF0000) (solid 0) (solid 0xFF00FF00) (solid 0) (solid 0)
   \<and> isLit (solid 0xFF00FF00) \<and> isLit (solid 0xFF0000FF)
   \<and> setLightState NOTIFICATIONS (solid 0xFF0000FF)
         (table (solid 0xFFFF0000) (solid 0) (solid 0xFF00FF00) (solid 0) (solid 0))
       = (ok, [(HandleNotification, solid 0xFFFF0000)],
          table (solid 0xFFFF0000) (solid 0xFF0000FF) (solid 0xFF00FF00) (solid 0) (solid 0))
   \<and> solid 0xFFFF0000 \<noteq> solid 0xFF0000FF
   \<and> \<not> isLit (solid 0xFF000000)
   \<and> setLightState ATTENTION (solid 0xFF000000)
         (table (solid 0xFFFF0000) (solid 0xFF0000FF) (solid 0xFF00FF00) (solid 0) (solid 0))
       = (ok, [(HandleNotification, solid 0xFF0000FF)],
          table (solid 0xFF000000) (solid 0xFF0000FF) (solid 0xFF00FF00) (solid 0) (solid 0))
   \<and> solid 0xFF0000FF \<noteq> solid 0xFF00FF00"
  by (simp add: backends_table setLightState_table isLit_solid solid_eq_iff)

text \<open>
  C2. For every supported class (position \<open>p\<close> of the table) and every state: the same
  call made again returns what the first call returned, with the same handler call and
  the same table. When no entry with the handler of that class is lit after the update,
  the handler is called exactly once, with the state just written, and the call
  succeeds; that state is unlit, so its scaled brightness is 0 in both ranges.
\<close>

theorem setLightState_none_lit:
  assumes "is_backends bs" "p < 5"
  shows "setLightState (type (bs ! p)) st (snd (snd (setLightState (type (bs ! p)) st bs)))
           = setLightState (type (bs ! p)) st bs
         \<and> ((\<forall>k<5. handler (bs ! k) = handler (bs ! p)
                 \<longrightarrow> \<not> isLit (state (bs[p := (bs ! p)\<lparr>state := st\<rparr>] ! k))) \<longrightarrow>
              setLightState (type (bs ! p)) st bs
                = (ok, [(handler (bs ! p), st)], bs[p := (bs ! p)\<lparr>state := st\<rparr>])
              \<and> \<not> isLit st
              \<and> getScaledBrightness st MAX_LED_BRIGHTNESS = 0
              \<and> getScaledBrightness st MAX_LCD_BRIGHTNESS = 0)"
proof -
  from assms(1) obtain sa sn sb sl su where bs: "bs = table sa sn sb sl su"
    by (auto simp: is_backends_table)
  from assms(2) consider "p = 0" | "p = 1" | "p = 2" | "p = 3" | "p = 4"
    using less_5_cases by blast
  note p = this
  from p have again:
    "setLightState (type (bs ! p)) st (snd (snd (setLightState (type (bs ! p)) st bs)))
       = setLightState (type (bs ! p)) st bs"
    by cases (simp_all add: bs table_simps)
  have off: "setLightState (type (bs ! p)) st bs
                = (ok, [(handler (bs ! p), st)], bs[p := (bs ! p)\<lparr>state := st\<rparr>])
              \<and> \<not> isLit st
              \<and> getScaledBrightness st MAX_LED_BRIGHTNESS = 0
              \<and> getScaledBrightness st MAX_LCD_BRIGHTNESS = 0"
    if none: "\<forall>k<5. handler (bs ! k) = handler (bs ! p)
                 \<longrightarrow> \<not> isLit (state (bs[p := (bs ! p)\<lparr>state := st\<rparr>] ! k))"
  proof -
    from p have unlit: "\<not> isLit st"
      using none by cases (simp_all add: bs table_simps all_less_5)
    from p have "setLightState (type (bs ! p)) st bs
                = (ok, [(handler (bs ! p), st)], bs[p := (bs ! p)\<lparr>state := st\<rparr>])"
      using none by cases (simp_all add: bs table_simps all_less_5)
    with unlit show ?thesis
      by (simp add: unlit_getScaledBrightness)
  qed
  from again off show ?thesis
    by blast
qed

theorem setLightState_none_lit_witness:
  "is_backends
     (table (solid 0xFF000000) (solid 0xFF000000) (solid 0xFF112233) (solid 0xFFFFFFFF) (solid 0))
   \<and> \<not> isLit (solid 0x80000000)
   \<and> setLightState BATTERY (solid 0x80000000)
        (table (solid 0xFF000000) (solid 0xFF000000) (solid 0xFF112233) (solid 0xFFFFFFFF)
           (solid 0))
      = (ok, [(HandleNotification, solid 0x80000000)],
         table (solid 0xFF000000) (solid 0xFF000000) (solid 0x80000000) (solid 0xFFFFFFFF)
           (solid 0))
   \<and> setLightState BATTERY (solid 0x80000000)
        (table (solid 0xFF000000) (solid 0xFF000000) (solid 0x80000000) (solid 0xFFFFFFFF)
           (solid 0))
      = (ok, [(HandleNotification, solid 0x80000000)],
         table (solid 0xFF000000) (solid 0xFF000000) (solid 0x80000000) (solid 0xFFFFFFFF)
           (solid 0))
   \<and> getScaledBrightness (solid 0x80000000) MAX_LED_BRIGHTNESS = 0"
  using setLightState_none_lit [of
      "table (solid 0xFF000000) (solid 0xFF000000) (solid 0xFF112233) (solid 0xFFFFFFFF) (solid 0)"
      2 "solid 0x80000000"]
  by (simp add: is_backends_tableI table_simps isLit_solid all_less_5)

text \<open>
  C6. For a class outside \<^verbatim>\<open>ATTENTION\<close>, \<^verbatim>\<open>NOTIFICATIONS\<close>, \<^verbatim>\<open>BATTERY\<close>, \<^verbatim>\<open>BACKLIGHT\<close> and
  \<^verbatim>\<open>BUTTONS\<close> the call returns \<^verbatim>\<open>EX_UNSUPPORTED_OPERATION\<close>, calls no handler, writes no
  attribute and leaves the table as it was.
\<close>

theorem setLightState_unsupported:
  assumes "is_backends bs" "ty \<notin> {ATTENTION, NOTIFICATIONS, BATTERY, BACKLIGHT, BUTTONS}"
  shows "setLightState ty st bs = (EX_UNSUPPORTED_OPERATION, [], bs)
         \<and> writes_of (fst (snd (setLightState ty st bs))) = []"
proof -
  from assms(1) obtain sa sn sb sl su where bs: "bs = table sa sn sb sl su"
    by (auto simp: is_backends_table)
  show ?thesis
    using assms(2) by (simp add: bs setLightState_other writes_of_def)
qed

theorem setLightState_unsupported_witness:
  "is_backends (backends (solid 0xFF000000))
   \<and> OTHER 1 \<notin> {ATTENTION, NOTIFICATIONS, BATTERY, BACKLIGHT, BUTTONS}
   \<and> setLightState (OTHER 1) (solid 0xFFFFFFFF) (backends (solid 0xFF000000))
       = (EX_UNSUPPORTED_OPERATION, [], backends (solid 0xFF000000))"
  using setLightState_unsupported [of "backends (solid 0xFF000000)" "OTHER 1" "solid 0xFFFFFFFF"]
  by (simp add: backends_table is_backends_tableI)

lemma getLights_table:
  "getLights num (table sa sn sb sl su) lights =
     (ok, lights @
       [\<lparr>hw_id = num ATTENTION, hw_type = ATTENTION, ordinal = 0\<rparr>,
        \<lparr>hw_id = num NOTIFICATIONS, hw_type = NOTIFICATIONS, ordinal = 1\<rparr>,
        \<lparr>hw_id = num BATTERY, hw_type = BATTERY, ordinal = 2\<rparr>,
        \<lparr>hw_id = num BACKLIGHT, hw_type = BACKLIGHT, ordinal = 3\<rparr>,
        \<lparr>hw_id = num BUTTONS, hw_type = BUTTONS, ordinal = 4\<rparr>])"
  by (simp add: getLights_def table_def)

text \<open>
  C9. After any history of \<^verbatim>\<open>setLightState\<close> calls, \<^verbatim>\<open>getLights\<close> appends to the vector it
  is given the five entries \<^verbatim>\<open>ATTENTION\<close>, \<^verbatim>\<open>NOTIFICATIONS\<close>, \<^verbatim>\<open>BATTERY\<close>, \<^verbatim>\<open>BACKLIGHT\<close>,
  \<^verbatim>\<open>BUTTONS\<close> in this order, with the ordinals 0 to 4; given an empty vector it returns
  exactly these five.
\<close>

theorem getLights_fixed:
  "getLights num (run_calls cs (backends init)) lights =
     (ok, lights @
       [\<lparr>hw_id = num ATTENTION, hw_type = ATTENTION, ordinal = 0\<rparr>,
        \<lparr>hw_id = num NOTIFICATIONS, hw_type = NOTIFICATIONS, ordinal = 1\<rparr>,
        \<lparr>hw_id = num BATTERY, hw_type = BATTERY, ordinal = 2\<rparr>,
        \<lparr>hw_id = num BACKLIGHT, hw_type = BACKLIGHT, ordinal = 3\<rparr>,
        \<lparr>hw_id = num BUTTONS, hw_type = BUTTONS, ordinal = 4\<rparr>])
   \<and> length (snd (getLights num (run_calls cs (backends init)) [])) = 5"
proof -
  have "is_backends (run_calls cs (backends init))"
    by (simp add: is_backends_run_calls backends_table is_backends_tableI)
  then obtain sa sn sb sl su where "run_calls cs (backends init) = table sa sn sb sl su"
    by (auto simp: is_backends_table)
  then show ?thesis
    by (simp add: getLights_table)
qed

text \<open>
  C10. A successful call for the class at position \<open>p\<close> replaces the stored state of
  that entry and nothing else: every other entry is as before, the class and the handler
  of every entry are unchanged, and position \<open>p\<close> is the only entry of that class.
\<close>

theorem setLightState_frame:
  assumes "is_backends bs" "p < 5"
  shows "\<exists>calls bs'. setLightState (type (bs ! p)) st bs = (ok, calls, bs')
           \<and> bs' = bs[p := (bs ! p)\<lparr>state := st\<rparr>]
           \<and> (\<forall>k<5. k \<noteq> p \<longrightarrow> bs' ! k = bs ! k)
           \<and> type (bs' ! p) = type (bs ! p) \<and> handler (bs' ! p) = handler (bs ! p)
           \<and> state (bs' ! p) = st
           \<and> map type bs' = map type bs \<and> map handler bs' = map handler bs
           \<and> (\<forall>k<5. type (bs ! k) = type (bs ! p) \<longrightarrow> k = p)"
proof -
  from assms(1) obtain sa sn sb sl su where bs: "bs = table sa sn sb sl su"
    by (auto simp: is_backends_table)
  have len: "length bs = 5"
    by (simp add: bs length_table)
  have r: "setLightState (type (bs ! p)) st bs
      = (ok, fst (snd (setLightState (type (bs ! p)) st bs)), bs[p := (bs ! p)\<lparr>state := st\<rparr>])"
    using assms by (simp add: setLightState_select)
  have d: "\<forall>k<5. type (bs ! k) = type (bs ! p) \<longrightarrow> k = p"
    using assms(2) less_5_cases [of p]
    by (auto simp: bs table_nth all_less_5)
  have m: "map type (bs[p := (bs ! p)\<lparr>state := st\<rparr>]) = map type bs"
      "map handler (bs[p := (bs ! p)\<lparr>state := st\<rparr>]) = map handler bs"
    by (simp_all add: map_update) (metis list_update_id map_update)+
  show ?thesis
    using r d m assms(2) len
    by (intro exI [of _ "fst (snd (setLightState (type (bs ! p)) st bs))"]
        exI [of _ "bs[p := (bs ! p)\<lparr>state := st\<rparr>]"]) simp
qed

theorem setLightState_frame_witness:
  "is_backends (table (solid 0xFFFF0000) (solid 0) (solid 0xFF00FF00) (solid 0xFF808080) (solid 0))
   \<and> (1 :: nat) < 5
   \<and> setLightState NOTIFICATIONS (solid 0xFF0000FF)
         (table (solid 0xFFFF0000) (solid 0) (solid 0xFF00FF00) (solid 0xFF808080) (solid 0))
       = (ok, [(HandleNotification, solid 0xFFFF0000)],
          table (solid 0xFFFF0000) (solid 0xFF0000FF) (solid 0xFF00FF00) (solid 0xFF808080)
            (solid 0))"
  using setLightState_frame [of
      "table (solid 0xFFFF0000) (solid 0) (solid 0xFF00FF00) (solid 0xFF808080) (solid 0)" 1
      "solid 0xFF0000FF"]
  by (simp add: is_backends_tableI table_simps isLit_solid)

section \<open>Halving alpha\<close>

lemma dim_half_upper:
  assumes "a \<le> 255"
  shows "2 * spec_dim (a div 2) c \<le> spec_dim a c"
proof (cases "a = 255")
  case True
  have "2 * (c * 127 div 255) \<le> c"
    by arith
  then show ?thesis
    by (simp add: True spec_dim_def)
next
  case False
  have "2 * (a div 2) \<le> a"
    by simp
  then have "c * (2 * (a div 2)) \<le> c * a"
    by (rule mult_le_mono2)
  then have "2 * (c * (a div 2)) \<le> c * a"
    by (simp add: mult.left_commute)
  then have "2 * (c * (a div 2) div 255) \<le> c * a div 255"
    by arith
  moreover have "a div 2 \<noteq> 255"
    using assms by arith
  ultimately show ?thesis
    using False by (simp add: spec_dim_def)
qed

lemma dim_half_lower:
  assumes "a \<le> 255" "c \<le> 255"
  shows "spec_dim a c \<le> 2 * spec_dim (a div 2) c + 2"
proof (cases "a = 255")
  case True
  have "c \<le> 2 * (c * 127 div 255) + 2"
    using assms(2) by arith
  then show ?thesis
    by (simp add: True spec_dim_def)
next
  case False
  have "a \<le> 2 * (a div 2) + 1"
    by arith
  then have "c * a \<le> c * (2 * (a div 2) + 1)"
    by (rule mult_le_mono2)
  then have "c * a \<le> 2 * (c * (a div 2)) + c"
    by (simp add: algebra_simps)
  then have "c * a div 255 \<le> 2 * (c * (a div 2) div 255) + 2"
    using assms(2) by arith
  moreover have "a div 2 \<noteq> 255"
    using assms by arith
  ultimately show ?thesis
    using False by (simp add: spec_dim_def)
qed

lemma div_mod_pack:
  fixes q x m :: nat
  assumes "x < m"
  shows "(q * m + x) div m = q" "(q * m + x) mod m = x"
  using assms by simp_all

lemma packed_channels:
  fixes a r g b :: nat
  assumes "a \<le> 255" "r \<le> 255" "g \<le> 255" "b \<le> 255"
  shows "(a * 16777216 + r * 65536 + g * 256 + b) div 16777216 mod 256 = a"
    and "(a * 16777216 + r * 65536 + g * 256 + b) div 65536 mod 256 = r"
    and "(a * 16777216 + r * 65536 + g * 256 + b) div 256 mod 256 = g"
    and "(a * 16777216 + r * 65536 + g * 256 + b) mod 256 = b"
proof -
  let ?n = "a * 16777216 + r * 65536 + g * 256 + b"
  have n3: "?n = a * 16777216 + (r * 65536 + g * 256 + b)"
    by simp
  have n2: "?n = (a * 256 + r) * 65536 + (g * 256 + b)"
    by simp
  have n1: "?n = ((a * 256 + r) * 256 + g) * 256 + b"
    by simp
  have s3: "r * 65536 + g * 256 + b < 16777216"
    using assms by simp
  have s2: "g * 256 + b < 65536"
    using assms by simp
  have s1: "b < 256" and sg: "g < 256" and sr: "r < 256" and sa: "a < 256"
    using assms by simp_all
  have "?n div 16777216 = a"
    unfolding n3 using s3 by (rule div_mod_pack)
  then show "?n div 16777216 mod 256 = a"
    using sa by simp
  have "?n div 65536 = a * 256 + r"
    unfolding n2 using s2 by (rule div_mod_pack)
  then show "?n div 65536 mod 256 = r"
    using sr by (simp only: div_mod_pack)
  have "?n div 256 = (a * 256 + r) * 256 + g"
    unfolding n1 using s1 by (rule div_mod_pack)
  then show "?n div 256 mod 256 = g"
    using sg by (simp only: div_mod_pack)
  show "?n mod 256 = b"
    unfolding n1 using s1 by (rule div_mod_pack)
qed

lemma unat_argb:
  assumes "a \<le> 255" "r \<le> 255" "g \<le> 255" "b \<le> 255"
  shows "unat (argb a r g b) = a * 16777216 + r * 65536 + g * 256 + b"
proof -
  have "a * 16777216 + r * 65536 + g * 256 + b < 2 ^ LENGTH(32)"
    using assms by simp
  then have "(a * 16777216 + r * 65536 + g * 256 + b) mod 2 ^ LENGTH(32)
      = a * 16777216 + r * 65536 + g * 256 + b"
    by (rule mod_less)
  then show ?thesis
    by (simp only: argb_def unat_of_nat)
qed

lemma argb_channels:
  assumes "a \<le> 255" "r \<le> 255" "g \<le> 255" "b \<le> 255"
  shows "argb_alpha (unat (argb a r g b)) = a" "argb_red (unat (argb a r g b)) = r"
    "argb_green (unat (argb a r g b)) = g" "argb_blue (unat (argb a r g b)) = b"
  using packed_channels [OF assms]
  by (simp_all add: unat_argb [OF assms] argb_alpha_def argb_red_def argb_green_def
      argb_blue_def)

lemma spec_luma_argb:
  assumes "a \<le> 255" "r \<le> 255" "g \<le> 255" "b \<le> 255"
  shows "spec_luma (unat (argb a r g b))
         = (77 * spec_dim a r + 150 * spec_dim a g + 29 * spec_dim a b) div 256"
  using assms by (simp add: spec_luma_def argb_channels)

lemma luma_half:
  assumes "a \<le> 255" "r \<le> 255" "g \<le> 255" "b \<le> 255"
  shows "2 * spec_luma (unat (argb (a div 2) r g b)) \<le> spec_luma (unat (argb a r g b))"
    and "spec_luma (unat (argb a r g b)) \<le> 2 * spec_luma (unat (argb (a div 2) r g b)) + 3"
proof -
  have h: "a div 2 \<le> 255"
    using assms(1) by simp
  define R G B where "R = spec_dim a r" and "G = spec_dim a g" and "B = spec_dim a b"
  define Rh Gh Bh where "Rh = spec_dim (a div 2) r" and "Gh = spec_dim (a div 2) g"
    and "Bh = spec_dim (a div 2) b"
  have up: "2 * Rh \<le> R" "2 * Gh \<le> G" "2 * Bh \<le> B"
    unfolding R_def G_def B_def Rh_def Gh_def Bh_def
    using assms(1) by (rule dim_half_upper)+
  have lo: "R \<le> 2 * Rh + 2" "G \<le> 2 * Gh + 2" "B \<le> 2 * Bh + 2"
    unfolding R_def G_def B_def Rh_def Gh_def Bh_def
    by (rule dim_half_lower [OF assms(1,2)], rule dim_half_lower [OF assms(1,3)],
        rule dim_half_lower [OF assms(1,4)])
  have full: "spec_luma (unat (argb a r g b)) = (77 * R + 150 * G + 29 * B) div 256"
    unfolding R_def G_def B_def using assms by (rule spec_luma_argb)
  have half: "spec_luma (unat (argb (a div 2) r g b)) = (77 * Rh + 150 * Gh + 29 * Bh) div 256"
    unfolding Rh_def Gh_def Bh_def using h assms(2-4) by (rule spec_luma_argb)
  show "2 * spec_luma (unat (argb (a div 2) r g b)) \<le> spec_luma (unat (argb a r g b))"
    unfolding full half using up by arith
  show "spec_luma (unat (argb a r g b)) \<le> 2 * spec_luma (unat (argb (a div 2) r g b)) + 3"
    unfolding full half using lo by arith
qed

lemma scaled_half:
  fixes lh lf :: nat
  assumes "2 * lh \<le> lf" "lf \<le> 2 * lh + 3"
  shows "lh * 255 div 255 \<le> (lf * 255 div 255) div 2"
    and "(lf * 255 div 255) div 2 \<le> lh * 255 div 255 + 1"
    and "lh * 4095 div 255 \<le> (lf * 4095 div 255) div 2"
    and "(lf * 4095 div 255) div 2 \<le> lh * 4095 div 255 + 25"
  using assms by simp_all

lemma split_bytes:
  fixes n :: nat
  assumes "n < 4294967296"
  shows "n = (n div 2 ^ 24 mod 256) * 16777216 + (n div 2 ^ 16 mod 256) * 65536
             + (n div 2 ^ 8 mod 256) * 256 + n mod 256"
proof -
  define a r g b where "a = n div 16777216" and "r = n div 65536 mod 256"
    and "g = n div 256 mod 256" and "b = n mod 256"
  have a: "n div 16777216 mod 256 = a"
    using assms by (simp add: a_def)
  have s3: "n = a * 16777216 + n mod 16777216"
    by (simp add: a_def)
  have s2: "n mod 16777216 = r * 65536 + n mod 65536"
    using mod_mult2_eq [of n 65536 256] by (simp add: r_def)
  have s1: "n mod 65536 = g * 256 + b"
    using mod_mult2_eq [of n 256 256] by (simp add: g_def b_def)
  have "n = a * 16777216 + r * 65536 + g * 256 + b"
    using s3 s2 s1 by linarith
  then show ?thesis
    using a by (simp add: r_def g_def b_def)
qed

lemma argb_of_channels:
  "argb (argb_alpha (unat c)) (argb_red (unat c)) (argb_green (unat c)) (argb_blue (unat c)) = c"
proof -
  have "unat c < 2 ^ LENGTH(32)"
    by (rule unsigned_less)
  then have "unat c < 4294967296"
    by simp
  then have "unat c = argb_alpha (unat c) * 16777216 + argb_red (unat c) * 65536
      + argb_green (unat c) * 256 + argb_blue (unat c)"
    unfolding argb_alpha_def argb_red_def argb_green_def argb_blue_def by (rule split_bytes)
  then have "word_of_nat (unat c) = argb (argb_alpha (unat c)) (argb_red (unat c))
      (argb_green (unat c)) (argb_blue (unat c))"
    unfolding argb_def by (rule arg_cong)
  then show ?thesis
    by simp
qed

lemmas eval_brightness = getScaledBrightness_def scaleBrightness_def getBrightness_def
  MAX_LED_BRIGHTNESS_def MAX_LCD_BRIGHTNESS_def solid_def

text \<open>
  C7, as amended. For every packed colour, halving alpha (\<open>a div 2\<close> for \<open>a\<close>) with red,
  green and blue fixed at most halves the scaled brightness, and misses the truncated
  half by little: in the range of 255 the result is at most \<open>full div 2\<close> and at least
  \<open>full div 2 - 1\<close>; in the range of 4095 it is at most \<open>full div 2\<close> and at least
  \<open>full div 2 - 25\<close>. By \<open>argb_of_channels\<close> every colour is the pack of its four
  channels.
\<close>

theorem alpha_halving_bounds:
  assumes "a \<le> 255" "r \<le> 255" "g \<le> 255" "b \<le> 255"
  shows
    "unat (getScaledBrightness (st\<lparr>color := argb (a div 2) r g b\<rparr>) MAX_LED_BRIGHTNESS)
       \<le> unat (getScaledBrightness (st\<lparr>color := argb a r g b\<rparr>) MAX_LED_BRIGHTNESS) div 2
     \<and> unat (getScaledBrightness (st\<lparr>color := argb a r g b\<rparr>) MAX_LED_BRIGHTNESS) div 2
       \<le> unat (getScaledBrightness (st\<lparr>color := argb (a div 2) r g b\<rparr>) MAX_LED_BRIGHTNESS) + 1
     \<and> unat (getScaledBrightness (st\<lparr>color := argb (a div 2) r g b\<rparr>) MAX_LCD_BRIGHTNESS)
       \<le> unat (getScaledBrightness (st\<lparr>color := argb a r g b\<rparr>) MAX_LCD_BRIGHTNESS) div 2
     \<and> unat (getScaledBrightness (st\<lparr>color := argb a r g b\<rparr>) MAX_LCD_BRIGHTNESS) div 2
       \<le> unat (getScaledBrightness (st\<lparr>color := argb (a div 2) r g b\<rparr>) MAX_LCD_BRIGHTNESS) + 25"
proof -
  define lf where "lf = spec_luma (unat (argb a r g b))"
  define lh where "lh = spec_luma (unat (argb (a div 2) r g b))"
  have l: "2 * lh \<le> lf" "lf \<le> 2 * lh + 3"
    unfolding lf_def lh_def using assms by (rule luma_half)+
  have led: "unat (getScaledBrightness (st\<lparr>color := c\<rparr>) MAX_LED_BRIGHTNESS)
      = spec_luma (unat c) * 255 div 255" for c
    using unat_getScaledBrightness [of MAX_LED_BRIGHTNESS "st\<lparr>color := c\<rparr>"]
    by (simp add: MAX_LED_BRIGHTNESS_def spec_scaled_def)
  have lcd: "unat (getScaledBrightness (st\<lparr>color := c\<rparr>) MAX_LCD_BRIGHTNESS)
      = spec_luma (unat c) * 4095 div 255" for c
    using unat_getScaledBrightness [of MAX_LCD_BRIGHTNESS "st\<lparr>color := c\<rparr>"]
    by (simp add: MAX_LCD_BRIGHTNESS_def spec_scaled_def)
  show ?thesis
    unfolding led lcd using scaled_half [OF l] by (simp only: lf_def lh_def)
qed

theorem alpha_halving_bounds_witness:
  "(255 :: nat) \<le> 255
   \<and> argb 255 255 255 255 = 0xFFFFFFFF \<and> argb (255 div 2) 255 255 255 = 0x7FFFFFFF
   \<and> unat (getScaledBrightness (solid (argb 255 255 255 255)) MAX_LCD_BRIGHTNESS) = 4095
   \<and> unat (getScaledBrightness (solid (argb (255 div 2) 255 255 255)) MAX_LCD_BRIGHTNESS) = 2039
   \<and> unat (getScaledBrightness (solid (argb 255 255 255 255)) MAX_LED_BRIGHTNESS) = 255
   \<and> unat (getScaledBrightness (solid (argb (255 div 2) 255 255 255)) MAX_LED_BRIGHTNESS) = 127"
  using alpha_halving_bounds [of 255 255 255 255 "solid 0"]
  by (simp add: argb_def eval_brightness)

text \<open>
  Halving alpha does not halve the result exactly. In the range of 255 the colour
  \<^verbatim>\<open>0x0300FFFF\<close> gives 2 and, with alpha halved to 1, \<^verbatim>\<open>0x0100FFFF\<close> gives 0, not 1. In the
  range of 4095 the colour \<^verbatim>\<open>0xFFFFFFFF\<close> gives 4095 and, with alpha halved to
  \<^verbatim>\<open>0x7F\<close>, \<^verbatim>\<open>0x7FFFFFFF\<close> gives 2039, not 2047.
\<close>

theorem alpha_halving_counterexample:
  "getScaledBrightness (solid 0x0300FFFF) MAX_LED_BRIGHTNESS = 2
   \<and> getScaledBrightness (solid 0x0100FFFF) MAX_LED_BRIGHTNESS = 0
   \<and> unat (getScaledBrightness (solid 0x0100FFFF) MAX_LED_BRIGHTNESS)
       \<noteq> unat (getScaledBrightness (solid 0x0300FFFF) MAX_LED_BRIGHTNESS) div 2
   \<and> getScaledBrightness (solid 0xFFFFFFFF) MAX_LCD_BRIGHTNESS = 4095
   \<and> getScaledBrightness (solid 0x7FFFFFFF) MAX_LCD_BRIGHTNESS = 2039
   \<and> unat (getScaledBrightness (solid 0x7FFFFFFF) MAX_LCD_BRIGHTNESS)
       \<noteq> unat (getScaledBrightness (solid 0xFFFFFFFF) MAX_LCD_BRIGHTNESS) div 2"
  by (simp add: eval_brightness)

end
